theory Spec2Isabelle
  imports Main
begin

section \<open>Python values used by network-canary.py\<close>

text \<open>
  A Python \<open>str\<close> is a sequence of Unicode code points, so it is modelled as a list of
  natural numbers. \<open>ascii\<close> turns an Isabelle string literal into such a list.
  A naive \<open>datetime\<close> is a number of microseconds on the local time line, and a
  \<open>timedelta\<close> is a (possibly negative) number of microseconds.
\<close>

type_synonym pystr = "nat list"
type_synonym datetime = int
type_synonym timedelta = int

definition ascii :: "string \<Rightarrow> pystr" where
  "ascii s = map of_char s"

text \<open>\<open>timedelta(seconds=n)\<close>.\<close>

definition seconds_td :: "int \<Rightarrow> timedelta" where
  "seconds_td n = n * 1000000"

text \<open>\<open>str(n)\<close> for a Python int: decimal digits, with a minus sign when negative.\<close>

function str_nat :: "nat \<Rightarrow> pystr" where
  "str_nat n = (if n < 10 then [48 + n] else str_nat (n div 10) @ [48 + n mod 10])"
  by pat_completeness auto
termination
  by (relation "measure (\<lambda>n. n)") auto

declare str_nat.simps [simp del]

definition str_int :: "int \<Rightarrow> pystr" where
  "str_int i = (if i < 0 then 45 # str_nat (nat (- i)) else str_nat (nat i))"

text \<open>\<open>sep.join(parts)\<close>.\<close>

fun join :: "pystr \<Rightarrow> pystr list \<Rightarrow> pystr" where
  "join sep [] = []"
| "join sep [x] = x"
| "join sep (x # y # ys) = x @ sep @ join sep (y # ys)"

text \<open>
  \<open>str.isspace\<close> on one code point (the table of CPython's \<open>_PyUnicode_IsWhitespace\<close>),
  \<open>str.strip()\<close>, \<open>str.startswith\<close> and \<open>str.lower\<close> (on the ASCII letters, which is
  what \<open>platform.system()\<close> returns).
\<close>

definition isspace :: "nat \<Rightarrow> bool" where
  "isspace c \<longleftrightarrow>
     (9 \<le> c \<and> c \<le> 13) \<or> (28 \<le> c \<and> c \<le> 32) \<or> c = 133 \<or> c = 160 \<or> c = 5760 \<or>
     (8192 \<le> c \<and> c \<le> 8202) \<or> c = 8232 \<or> c = 8233 \<or> c = 8239 \<or> c = 8287 \<or> c = 12288"

definition strip :: "pystr \<Rightarrow> pystr" where
  "strip s = rev (dropWhile isspace (rev (dropWhile isspace s)))"

definition startswith :: "pystr \<Rightarrow> pystr \<Rightarrow> bool" where
  "startswith s p \<longleftrightarrow> take (length p) s = p"

definition lower :: "pystr \<Rightarrow> pystr" where
  "lower s = map (\<lambda>c. if 65 \<le> c \<and> c \<le> 90 then c + 32 else c) s"

section \<open>Configuration\<close>

definition PING_TARGET :: pystr where
  "PING_TARGET = ascii ''1.1.1.1''"

definition PING_INTERVAL :: int where
  "PING_INTERVAL = 5"

definition PING_TIMEOUT :: int where
  "PING_TIMEOUT = 3"

definition WEBHOOK_FILE :: pystr where
  "WEBHOOK_FILE = ascii ''webhook-secret''"

section \<open>format_duration\<close>

text \<open>
  \<open>int(duration.total_seconds())\<close>: the whole seconds of the span, truncated towards
  zero. (\<open>total_seconds()\<close> is a float; the quotient is exact below \<open>2^33\<close> seconds,
  some 270 years, which is the range this definition stands for.)
\<close>

definition total_seconds_int :: "timedelta \<Rightarrow> int" where
  "total_seconds_int d = (if d < 0 then - ((- d) div 1000000) else d div 1000000)"

definition format_duration :: "timedelta \<Rightarrow> pystr" where
  "format_duration duration =
     (let total_seconds = total_seconds_int duration;
          hours = total_seconds div 3600;
          minutes = (total_seconds mod 3600) div 60;
          seconds = total_seconds mod 60;
          parts0 = [];
          parts1 = (if hours > 0
                    then parts0 @ [str_int hours @ ascii '' hour'' @
                                   (if hours \<noteq> 1 then ascii ''s'' else [])]
                    else parts0);
          parts2 = (if minutes > 0
                    then parts1 @ [str_int minutes @ ascii '' minute'' @
                                   (if minutes \<noteq> 1 then ascii ''s'' else [])]
                    else parts1);
          parts3 = (if seconds > 0 \<or> parts2 = []
                    then parts2 @ [str_int seconds @ ascii '' second'' @
                                   (if seconds \<noteq> 1 then ascii ''s'' else [])]
                    else parts2)
      in join (ascii '', '') parts3)"

section \<open>Exceptions, the outside world and the effect monad\<close>

text \<open>
  The exceptions the program distinguishes. \<open>KeyboardInterrupt\<close> and \<open>SystemExit\<close>
  derive from \<open>BaseException\<close> only; every other constructor stands for an instance of
  a subclass of \<open>Exception\<close> and carries \<open>str(e)\<close>. \<open>Exception m\<close> is any
  \<open>Exception\<close> that is neither a \<open>FileNotFoundError\<close> nor a \<open>TimeoutExpired\<close>.
\<close>

datatype exc =
    KeyboardInterrupt
  | SystemExit int
  | FileNotFoundError pystr
  | TimeoutExpired pystr
  | Exception pystr

text \<open>\<open>isinstance(e, Exception)\<close> and \<open>str(e)\<close>.\<close>

fun is_Exception :: "exc \<Rightarrow> bool" where
  "is_Exception KeyboardInterrupt = False"
| "is_Exception (SystemExit c) = False"
| "is_Exception (FileNotFoundError m) = True"
| "is_Exception (TimeoutExpired m) = True"
| "is_Exception (Exception m) = True"

fun str_exc :: "exc \<Rightarrow> pystr" where
  "str_exc KeyboardInterrupt = []"
| "str_exc (SystemExit c) = str_int c"
| "str_exc (FileNotFoundError m) = m"
| "str_exc (TimeoutExpired m) = m"
| "str_exc (Exception m) = m"

text \<open>The dict and list literals of the webhook payload.\<close>

datatype json =
    JStr pystr
  | JInt int
  | JBool bool
  | JList "json list"
  | JDict "(pystr \<times> json) list"

text \<open>
  What an observer of the process sees, in order: text written to standard output, the
  subprocess started by \<open>subprocess.run\<close> (command, timeout), \<open>time.sleep\<close> (seconds),
  \<open>requests.post\<close> (url, json, timeout), and, as a call record, each entry into
  \<open>send_discord_notification\<close> with its arguments
  (webhook_url, downtime_start, downtime_end, duration).
\<close>

datatype event =
    Print pystr
  | Run "pystr list" int
  | Sleep int
  | Notify pystr datetime datetime timedelta
  | Post pystr json int

text \<open>
  What the outside world does during one phase of the run (the start-up, or one
  iteration of the loop). \<open>raises env l = Some e\<close> says that the library or system call
  on source line \<open>l\<close> raises \<open>e\<close> in this phase, which is also how a SIGINT delivered
  during that call shows. The other fields are what the calls return when they return.
\<close>

record env =
  raises :: "nat \<Rightarrow> exc option"
  file_text :: "pystr option"
  platform_system :: pystr
  platform_release :: pystr
  returncode :: int
  now :: datetime
  strftime :: "pystr \<Rightarrow> datetime \<Rightarrow> pystr"
  utcnow_isoformat :: pystr
  status_code :: int

text \<open>
  The two variables of \<open>monitor_network\<close> that live across iterations, and the events
  so far.
\<close>

record state =
  network_is_up :: bool
  downtime_start :: "datetime option"
  trace :: "event list"

text \<open>
  A statement either completes with a value or raises; in both cases the state reached
  so far is kept.
\<close>

type_synonym 'a py = "state \<Rightarrow> (exc + 'a) \<times> state"

definition ret :: "'a \<Rightarrow> 'a py" where
  "ret x s = (Inr x, s)"

definition raise :: "exc \<Rightarrow> 'a py" where
  "raise e s = (Inl e, s)"

definition bind :: "'a py \<Rightarrow> ('a \<Rightarrow> 'b py) \<Rightarrow> 'b py" where
  "bind m f s = (case m s of (Inl e, s') \<Rightarrow> (Inl e, s') | (Inr x, s') \<Rightarrow> f x s')"

text \<open>\<open>try: m  except ... as e: h e\<close>; the handler re-raises what no clause matches.\<close>

definition try_except :: "'a py \<Rightarrow> (exc \<Rightarrow> 'a py) \<Rightarrow> 'a py" where
  "try_except m h s = (case m s of (Inl e, s') \<Rightarrow> h e s' | (Inr x, s') \<Rightarrow> (Inr x, s'))"

definition get :: "(state \<Rightarrow> 'a) \<Rightarrow> 'a py" where
  "get f s = (Inr (f s), s)"

definition modify :: "(state \<Rightarrow> state) \<Rightarrow> unit py" where
  "modify f s = (Inr (), f s)"

definition emit :: "event \<Rightarrow> unit py" where
  "emit ev s = (Inr (), s\<lparr>trace := trace s @ [ev]\<rparr>)"

text \<open>The call on source line \<open>l\<close> raises when the world says so.\<close>

definition at :: "env \<Rightarrow> nat \<Rightarrow> unit py" where
  "at env l = (case raises env l of None \<Rightarrow> ret () | Some e \<Rightarrow> raise e)"

definition nl :: pystr where
  "nl = [10]"

definition cr :: pystr where
  "cr = [13]"

text \<open>\<open>print(text, end=e)\<close> on line \<open>l\<close>.\<close>

definition print :: "env \<Rightarrow> nat \<Rightarrow> pystr \<Rightarrow> pystr \<Rightarrow> unit py" where
  "print env l msg e = bind (at env l) (\<lambda>_. emit (Print (msg @ e)))"

definition sys_exit :: "int \<Rightarrow> 'a py" where
  "sys_exit code = raise (SystemExit code)"

text \<open>\<open>time.sleep(secs)\<close> on line \<open>l\<close>: the sleep starts, and may be interrupted.\<close>

definition sleep :: "env \<Rightarrow> nat \<Rightarrow> int \<Rightarrow> unit py" where
  "sleep env l secs = bind (emit (Sleep secs)) (\<lambda>_. at env l)"

text \<open>\<open>subprocess.run(command, ..., timeout=t)\<close> on line \<open>l\<close>, giving the return code.\<close>

definition subprocess_run :: "env \<Rightarrow> nat \<Rightarrow> pystr list \<Rightarrow> int \<Rightarrow> int py" where
  "subprocess_run env l command t =
     bind (emit (Run command t)) (\<lambda>_. bind (at env l) (\<lambda>_. ret (returncode env)))"

text \<open>\<open>requests.post(url, json=message, timeout=t)\<close> on line \<open>l\<close>, giving the status code.\<close>

definition requests_post :: "env \<Rightarrow> nat \<Rightarrow> pystr \<Rightarrow> json \<Rightarrow> int \<Rightarrow> int py" where
  "requests_post env l url message t =
     bind (emit (Post url message t)) (\<lambda>_. bind (at env l) (\<lambda>_. ret (status_code env)))"

text \<open>\<open>datetime.now()\<close> on line \<open>l\<close>.\<close>

definition datetime_now :: "env \<Rightarrow> nat \<Rightarrow> datetime py" where
  "datetime_now env l = bind (at env l) (\<lambda>_. ret (now env))"

text \<open>\<open>open(WEBHOOK_FILE, 'r')\<close> on line \<open>l\<close>, giving the text of the file.\<close>

definition open_read :: "env \<Rightarrow> nat \<Rightarrow> pystr py" where
  "open_read env l =
     bind (at env l) (\<lambda>_.
       case file_text env of
         None \<Rightarrow> raise (FileNotFoundError
                   (ascii ''[Errno 2] No such file or directory: '' @ [39] @ WEBHOOK_FILE @ [39]))
       | Some text \<Rightarrow> ret text)"

section \<open>load_webhook_url\<close>

definition load_webhook_url :: "env \<Rightarrow> pystr py" where
  "load_webhook_url env =
     try_except
       (bind (open_read env 23) (\<lambda>f.
        bind (at env 24) (\<lambda>_.
        let url = strip f in
        if url \<noteq> [] \<and> \<not> startswith url (ascii ''http'') then
          bind (print env 26 (ascii ''Error: Invalid webhook URL in '' @ WEBHOOK_FILE) nl) (\<lambda>_.
          sys_exit 1)
        else ret url)))
       (\<lambda>e. case e of
          FileNotFoundError m \<Rightarrow>
            bind (print env 30 (ascii ''Error: '' @ WEBHOOK_FILE @ ascii '' not found'') nl) (\<lambda>_.
            sys_exit 1)
        | _ \<Rightarrow> raise e)"

section \<open>ping\<close>

definition ping :: "env \<Rightarrow> pystr \<Rightarrow> int \<Rightarrow> bool py" where
  "ping env host timeout =
     try_except
       (bind (at env 37) (\<lambda>_.
        let system = lower (platform_system env);
            command =
              (if system = ascii ''windows'' then
                 [ascii ''ping'', ascii ''-n'', ascii ''1'', ascii ''-w'',
                  str_int (timeout * 1000), host]
               else if system = ascii ''darwin'' then
                 [ascii ''ping'', ascii ''-c'', ascii ''1'', ascii ''-W'',
                  str_int (timeout * 1000), host]
               else
                 [ascii ''ping'', ascii ''-c'', ascii ''1'', ascii ''-W'',
                  str_int timeout, host])
        in
        bind (subprocess_run env 50 command (timeout + 1)) (\<lambda>result_returncode.
        ret (result_returncode = 0))))
       (\<lambda>e. case e of
          TimeoutExpired m \<Rightarrow> ret False
        | _ \<Rightarrow>
            if is_Exception e then
              bind (print env 60 (ascii '' !! Ping error: '' @ str_exc e) nl) (\<lambda>_.
              ret False)
            else raise e)"

section \<open>send_discord_notification\<close>

text \<open>The \<open>message\<close> dict of lines 85 to 109.\<close>

definition message :: "env \<Rightarrow> datetime \<Rightarrow> datetime \<Rightarrow> pystr \<Rightarrow> json" where
  "message env downtime_start' downtime_end duration_str =
     JDict [(ascii ''embeds'', JList [JDict [
       (ascii ''title'', JStr (127760 # ascii '' Network Restored'')),
       (ascii ''description'',
          JStr (ascii ''Network connectivity has been restored after being down for **'' @
                duration_str @ ascii ''**.'')),
       (ascii ''color'', JInt 3066993),
       (ascii ''fields'', JList [
          JDict [(ascii ''name'', JStr (ascii ''Downtime Started'')),
                 (ascii ''value'',
                    JStr (strftime env (ascii ''%Y-%m-%d %H:%M:%S'') downtime_start')),
                 (ascii ''inline'', JBool True)],
          JDict [(ascii ''name'', JStr (ascii ''Network Restored'')),
                 (ascii ''value'',
                    JStr (strftime env (ascii ''%Y-%m-%d %H:%M:%S'') downtime_end)),
                 (ascii ''inline'', JBool True)],
          JDict [(ascii ''name'', JStr (ascii ''Total Downtime'')),
                 (ascii ''value'', JStr duration_str),
                 (ascii ''inline'', JBool False)]]),
       (ascii ''timestamp'', JStr (utcnow_isoformat env))]])]"

definition send_discord_notification ::
  "env \<Rightarrow> pystr \<Rightarrow> datetime \<Rightarrow> datetime \<Rightarrow> timedelta \<Rightarrow> bool py" where
  "send_discord_notification env webhook_url downtime_start' downtime_end duration =
     bind (emit (Notify webhook_url downtime_start' downtime_end duration)) (\<lambda>_.
     let duration_str = format_duration duration in
     bind (at env 93) (\<lambda>_.
     bind (at env 98) (\<lambda>_.
     bind (at env 107) (\<lambda>_.
     try_except
       (bind (requests_post env 112 webhook_url
                (message env downtime_start' downtime_end duration_str) 10) (\<lambda>response_status_code.
        if response_status_code = 204 then
          bind (print env 114 (ascii '' ++ Discord notification sent successfully'') nl) (\<lambda>_.
          ret True)
        else
          bind (print env 117 (ascii '' !! Discord notification failed: '' @
                               str_int response_status_code) nl) (\<lambda>_.
          ret False)))
       (\<lambda>e. if is_Exception e then
               bind (print env 120 (ascii '' !! Error sending Discord notification: '' @
                                    str_exc e) nl) (\<lambda>_.
               ret False)
             else raise e)))))"

section \<open>monitor_network\<close>

text \<open>Lines 125 to 141: the webhook URL, the banner, and the initial values.\<close>

definition startup :: "env \<Rightarrow> pystr py" where
  "startup env =
     bind (load_webhook_url env) (\<lambda>webhook_url.
     bind (print env 127 (ascii '' '') nl) (\<lambda>_.
     bind (print env 128 ([32, 128330, 65039] @ ascii ''  Network Canary starting...'') nl) (\<lambda>_.
     bind (print env 129 (ascii '' '') nl) (\<lambda>_.
     bind (print env 130 (ascii '' ++ Platform: '' @ platform_system env @ ascii '' '' @
                          platform_release env) nl) (\<lambda>_.
     bind (print env 131 (ascii '' ++ Monitoring connectivity to '' @ PING_TARGET) nl) (\<lambda>_.
     bind (print env 132 (ascii '' ++ Ping interval: '' @ str_int PING_INTERVAL @
                          ascii '' seconds'') nl) (\<lambda>_.
     bind (print env 133 (ascii '' ++ Discord webhook configured'') nl) (\<lambda>_.
     bind (print env 134 (ascii '' '') nl) (\<lambda>_.
     bind (print env 135 (replicate 20 45) nl) (\<lambda>_.
     bind (print env 136 (replicate 20 45) nl) (\<lambda>_.
     bind (print env 137 (ascii '' '') nl) (\<lambda>_.
     bind (modify (\<lambda>s. s\<lparr>network_is_up := True, downtime_start := None\<rparr>)) (\<lambda>_.
     ret webhook_url)))))))))))))"

text \<open>
  Lines 145 to 178, the body of the \<open>try\<close>. Subtracting \<open>None\<close> from a datetime
  raises \<open>TypeError\<close>.
\<close>

definition TypeError_sub :: exc where
  "TypeError_sub =
     Exception (ascii ''unsupported operand type(s) for -: '' @ [39] @
                ascii ''datetime.datetime'' @ [39] @ ascii '' and '' @ [39] @
                ascii ''NoneType'' @ [39])"

definition try_body :: "env \<Rightarrow> pystr \<Rightarrow> unit py" where
  "try_body env webhook_url =
     bind (ping env PING_TARGET PING_TIMEOUT) (\<lambda>is_reachable.
     bind (datetime_now env 146) (\<lambda>current_time.
     bind
       (if is_reachable then
          bind (get network_is_up) (\<lambda>up.
          if \<not> up then
            bind (get downtime_start) (\<lambda>start.
            case start of
              None \<Rightarrow> raise TypeError_sub
            | Some downtime_start' \<Rightarrow>
                let downtime_end = current_time;
                    duration = downtime_end - downtime_start'
                in
                bind (print env 154
                        (nl @ ascii '' ++ Network restored at '' @
                         strftime env (ascii ''%H:%M:%S'') current_time) nl) (\<lambda>_.
                bind (print env 155
                        (ascii '' ++ Downtime duration: '' @ format_duration duration) nl) (\<lambda>_.
                bind (send_discord_notification env webhook_url downtime_start' downtime_end
                        duration) (\<lambda>_.
                bind (modify (\<lambda>s. s\<lparr>network_is_up := True, downtime_start := None\<rparr>)) (\<lambda>_.
                print env 162 (replicate 50 45) nl)))))
          else
            print env 165
              (ascii '' ++ '' @ strftime env (ascii ''%H:%M:%S'') current_time @
               ascii '' - Network OK'') cr)
        else
          bind (get network_is_up) (\<lambda>up.
          if up then
            bind (modify (\<lambda>s. s\<lparr>network_is_up := False,
                                 downtime_start := Some current_time\<rparr>)) (\<lambda>_.
            bind (print env 171
                    (nl @ ascii '' ++ Network down detected at '' @
                     strftime env (ascii ''%H:%M:%S'') current_time) nl) (\<lambda>_.
            print env 172 (ascii '' ++ Monitoring downtime...'') []))
          else
            bind (get downtime_start) (\<lambda>start.
            case start of
              None \<Rightarrow> raise TypeError_sub
            | Some downtime_start' \<Rightarrow>
                let elapsed = current_time - downtime_start' in
                print env 176
                  (cr @ ascii '' ++ Network down for: '' @ format_duration elapsed) [])))
       (\<lambda>_.
     sleep env 178 PING_INTERVAL)))"

text \<open>
  One iteration of \<open>while True\<close>: the \<open>try\<close> with its two handlers (lines 180 to 184).
  An \<open>Inr\<close> result goes on to the next iteration; an \<open>Inl\<close> result leaves
  \<open>monitor_network\<close> with that exception.
\<close>

definition tick :: "env \<Rightarrow> pystr \<Rightarrow> unit py" where
  "tick env webhook_url =
     try_except (try_body env webhook_url)
       (\<lambda>e. case e of
          KeyboardInterrupt \<Rightarrow> sys_exit 0
        | _ \<Rightarrow>
            if is_Exception e then
              bind (print env 183 (nl @ ascii '' !! Unexpected error: '' @ str_exc e) nl) (\<lambda>_.
              sleep env 184 PING_INTERVAL)
            else raise e)"

text \<open>
  The loop. \<open>envs n\<close> is the world during iteration \<open>n\<close>. The result is \<open>None\<close> when
  the loop runs forever, and the exception that ends it otherwise.
\<close>

partial_function (option) while_True ::
  "pystr \<Rightarrow> (nat \<Rightarrow> env) \<Rightarrow> nat \<Rightarrow> state \<Rightarrow> (exc \<times> state) option" where
  "while_True webhook_url envs n s =
     (case tick (envs n) webhook_url s of
        (Inl e, s') \<Rightarrow> Some (e, s')
      | (Inr u, s') \<Rightarrow> while_True webhook_url envs (Suc n) s')"

definition monitor_network :: "env \<Rightarrow> (nat \<Rightarrow> env) \<Rightarrow> state \<Rightarrow> (exc \<times> state) option" where
  "monitor_network env0 envs s =
     (case startup env0 s of
        (Inl e, s') \<Rightarrow> Some (e, s')
      | (Inr webhook_url, s') \<Rightarrow> while_True webhook_url envs 0 s')"

text \<open>The first iterations of the loop, one per element of the list.\<close>

fun iterations :: "pystr \<Rightarrow> env list \<Rightarrow> unit py" where
  "iterations webhook_url [] = ret ()"
| "iterations webhook_url (env # envs) =
     bind (tick env webhook_url) (\<lambda>_. iterations webhook_url envs)"

text \<open>The calls of \<open>send_discord_notification\<close> and of \<open>requests.post\<close> in a trace.\<close>

fun is_Notify :: "event \<Rightarrow> bool" where
  "is_Notify (Notify u a b d) = True"
| "is_Notify _ = False"

fun is_Post :: "event \<Rightarrow> bool" where
  "is_Post (Post u m t) = True"
| "is_Post _ = False"

definition notifications :: "state \<Rightarrow> event list" where
  "notifications s = filter is_Notify (trace s)"

definition posts :: "state \<Rightarrow> event list" where
  "posts s = filter is_Post (trace s)"

text \<open>The state in which line 143 is first reached, and the state before the program runs.\<close>

definition initial :: "event list \<Rightarrow> state" where
  "initial tr = \<lparr>network_is_up = True, downtime_start = None, trace = tr\<rparr>"

section \<open>Vocabulary of the properties\<close>

text \<open>The invariant of the loop: \<open>downtime_start\<close> is set exactly when the state is DOWN.\<close>

definition start_set_iff_down :: "state \<Rightarrow> bool" where
  "start_set_iff_down s \<longleftrightarrow> (downtime_start s \<noteq> None) = (\<not> network_is_up s)"

text \<open>
  \<open>probe_returns env b\<close>: in this iteration the call \<open>ping(PING_TARGET, PING_TIMEOUT)\<close>
  returns \<open>b\<close>. \<open>quiet env\<close>: in this iteration the only calls that may raise are those
  inside \<open>ping\<close> (lines 37, 50, 60) and \<open>requests.post\<close> (line 112), the latter with an
  \<open>Exception\<close> only, so that neither a signal nor a failing \<open>print\<close> disturbs the loop body.
\<close>

definition probe_returns :: "env \<Rightarrow> bool \<Rightarrow> bool" where
  "probe_returns env b \<longleftrightarrow> (\<forall>s. fst (ping env PING_TARGET PING_TIMEOUT s) = Inr b)"

definition quiet :: "env \<Rightarrow> bool" where
  "quiet env \<longleftrightarrow>
     (\<forall>l. l \<notin> {37, 50, 60, 112} \<longrightarrow> raises env l = None) \<and>
     (\<forall>e. raises env 112 = Some e \<longrightarrow> is_Exception e)"

text \<open>
  The state machine of the specification, on the probe results and clock readings of a
  run: the next value of \<open>downtime_start\<close>, the outage records (start, end) that are
  reported, and the number of DOWN to UP transitions from reachability state \<open>up\<close>.
\<close>

fun next_start :: "bool \<Rightarrow> datetime \<Rightarrow> datetime option \<Rightarrow> datetime option" where
  "next_start True t ds = None"
| "next_start False t None = Some t"
| "next_start False t (Some t0) = Some t0"

fun outages :: "datetime option \<Rightarrow> (bool \<times> datetime) list \<Rightarrow> (datetime \<times> datetime) list" where
  "outages ds [] = []"
| "outages ds ((b, t) # xs) =
     (case (b, ds) of (True, Some t0) \<Rightarrow> [(t0, t)] | _ \<Rightarrow> []) @ outages (next_start b t ds) xs"

fun recoveries :: "bool \<Rightarrow> bool list \<Rightarrow> nat" where
  "recoveries up [] = 0"
| "recoveries up (b # bs) = (if b \<and> \<not> up then 1 else 0) + recoveries b bs"

text \<open>The line that \<open>send_discord_notification\<close> prints about the outcome of the request.\<close>

definition outcome_line :: "env \<Rightarrow> pystr" where
  "outcome_line env =
     (case raises env 112 of
        Some e \<Rightarrow> ascii '' !! Error sending Discord notification: '' @ str_exc e @ nl
      | None \<Rightarrow>
          if status_code env = 204 then ascii '' ++ Discord notification sent successfully'' @ nl
          else ascii '' !! Discord notification failed: '' @ str_int (status_code env) @ nl)"

text \<open>
  Proof vocabulary: a statement preserves a predicate on states (also when it raises);
  a predicate that survives appending events of a given kind to the trace; events other
  than notifier calls; a state that extends another by such events.
\<close>

definition preserves :: "(state \<Rightarrow> bool) \<Rightarrow> 'a py \<Rightarrow> bool" where
  "preserves P m \<longleftrightarrow> (\<forall>s. P s \<longrightarrow> P (snd (m s)))"

definition trace_blind :: "(state \<Rightarrow> bool) \<Rightarrow> (event \<Rightarrow> bool) \<Rightarrow> bool" where
  "trace_blind P Q \<longleftrightarrow> (\<forall>s ev. P s \<longrightarrow> Q ev \<longrightarrow> P (s\<lparr>trace := trace s @ [ev]\<rparr>))"

definition other_event :: "event \<Rightarrow> bool" where
  "other_event ev \<longleftrightarrow> \<not> is_Notify ev \<and> \<not> is_Post ev"

definition extends :: "state \<Rightarrow> state \<Rightarrow> bool" where
  "extends s s' \<longleftrightarrow> (\<exists>evs. s' = s\<lparr>trace := trace s @ evs\<rparr> \<and> list_all other_event evs)"

text \<open>
  Concrete worlds. \<open>world rc t st\<close>: nothing raises, the ping subprocess exits with
  \<open>rc\<close>, the clock reads \<open>t\<close>, the webhook answers \<open>st\<close>, and the credential file is
  absent unless set.
\<close>

definition world :: "int \<Rightarrow> datetime \<Rightarrow> int \<Rightarrow> env" where
  "world rc t st =
     \<lparr>raises = (\<lambda>l. None), file_text = None, platform_system = ascii ''Linux'',
      platform_release = ascii ''6.1'', returncode = rc, now = t,
      strftime = (\<lambda>fmt d. str_int d), utcnow_isoformat = ascii ''2024-01-01T00:00:00+00:00'',
      status_code = st\<rparr>"



definition post_times_out :: env where
  "post_times_out =
     (world 0 0 204)\<lparr>raises := (\<lambda>l. if l = 112 then Some (Exception (ascii ''Read timed out.'')) else None)\<rparr>"



definition success_print_fails :: env where
  "success_print_fails =
     (world 0 0 204)\<lparr>raises :=
        (\<lambda>l. if l = 114 then Some (Exception (ascii ''Broken pipe'')) else None)\<rparr>"

definition error_print_fails :: env where
  "error_print_fails =
     (world 0 0 204)\<lparr>raises :=
        (\<lambda>l. if l = 112 then Some (Exception (ascii ''Read timed out.''))
             else if l = 120 then Some (Exception (ascii ''Broken pipe''))
             else None)\<rparr>"

definition sigint_during_post :: env where
  "sigint_during_post =
     (world 0 0 204)\<lparr>raises := (\<lambda>l. if l = 112 then Some KeyboardInterrupt else None)\<rparr>"

definition hook :: pystr where
  "hook = ascii ''https://example.com/hook''"

text \<open>
  An iteration in which \<open>subprocess.run\<close> raises, the diagnostic \<open>print\<close> on line 60
  raises in turn (the message cannot be encoded for standard output), and SIGINT arrives
  during the \<open>time.sleep\<close> on line 184.
\<close>

definition sigint_in_error_sleep :: env where
  "sigint_in_error_sleep =
     (world 0 0 204)\<lparr>raises :=
        (\<lambda>l. if l = 50 then Some (Exception (ascii ''ping: cannot execute''))
             else if l = 60 then Some (Exception (ascii ''codec cannot encode character''))
             else if l = 184 then Some KeyboardInterrupt
             else None)\<rparr>"

section \<open>The duration formatter on the documented examples\<close>

lemma str_nat_digit: "n < 10 \<Longrightarrow> str_nat n = [48 + n]"
  by (simp add: str_nat.simps)

text \<open>
  Claim C4. \<open>format_duration\<close> of 0 seconds is "0 seconds", of 61 seconds is
  "1 minute, 1 second", of 3661 seconds is "1 hour, 1 minute, 1 second", of 3600 seconds
  is "1 hour", and of 2 seconds is "2 seconds".
\<close>

theorem format_duration_examples:
  "format_duration (seconds_td 0) = ascii ''0 seconds'' \<and>
   format_duration (seconds_td 61) = ascii ''1 minute, 1 second'' \<and>
   format_duration (seconds_td 3661) = ascii ''1 hour, 1 minute, 1 second'' \<and>
   format_duration (seconds_td 3600) = ascii ''1 hour'' \<and>
   format_duration (seconds_td 2) = ascii ''2 seconds''"
  by (simp add: format_duration_def seconds_td_def total_seconds_int_def str_int_def
        str_nat_digit ascii_def Let_def)


section \<open>Running statements\<close>

lemma at_None: "raises env l = None \<Longrightarrow> at env l s = (Inr (), s)"
  by (simp add: at_def ret_def)

lemma at_Some: "raises env l = Some e \<Longrightarrow> at env l s = (Inl e, s)"
  by (simp add: at_def raise_def)

lemma print_None:
  "raises env l = None \<Longrightarrow> print env l msg e s = (Inr (), s\<lparr>trace := trace s @ [Print (msg @ e)]\<rparr>)"
  by (simp add: print_def bind_def at_None emit_def)

lemma print_Some: "raises env l = Some x \<Longrightarrow> print env l msg e s = (Inl x, s)"
  by (simp add: print_def bind_def at_Some)

lemma sleep_None:
  "raises env l = None \<Longrightarrow> sleep env l n s = (Inr (), s\<lparr>trace := trace s @ [Sleep n]\<rparr>)"
  by (simp add: sleep_def bind_def at_None emit_def)

lemma sleep_Some:
  "raises env l = Some x \<Longrightarrow> sleep env l n s = (Inl x, s\<lparr>trace := trace s @ [Sleep n]\<rparr>)"
  by (simp add: sleep_def bind_def at_Some emit_def)

text \<open>ping\<close>

lemma ping_fst:
  assumes "raises env 60 = None"
    and "\<forall>e. raises env 37 = Some e \<or> raises env 50 = Some e \<longrightarrow> is_Exception e"
  shows "fst (ping env host timeout s) =
           Inr (raises env 37 = None \<and> raises env 50 = None \<and> returncode env = 0)"
proof (cases "raises env 37")
  case None
  note n37 = this
  show ?thesis
  proof (cases "raises env 50")
    case None
    then show ?thesis using n37
      by (simp add: ping_def try_except_def bind_def at_None subprocess_run_def emit_def ret_def Let_def)
  next
    case (Some e)
    with assms have "is_Exception e" by blast
    then show ?thesis using n37 Some assms(1)
      by (cases e) (simp_all add: ping_def try_except_def bind_def at_None at_Some subprocess_run_def
          emit_def ret_def Let_def print_None)
  qed
next
  case (Some e)
  with assms have "is_Exception e" by blast
  then show ?thesis using Some assms(1)
    by (cases e) (simp_all add: ping_def try_except_def bind_def at_Some ret_def print_None)
qed


lemma preserves_ret: "preserves P (ret x)"
  by (simp add: preserves_def ret_def)

lemma preserves_raise: "preserves P (raise e)"
  by (simp add: preserves_def raise_def)

lemma preserves_sys_exit: "preserves P (sys_exit c)"
  by (simp add: sys_exit_def preserves_raise)

lemma preserves_get: "preserves P (get f)"
  by (simp add: preserves_def get_def)

lemma preserves_at: "preserves P (at env l)"
  by (simp add: at_def preserves_ret preserves_raise split: option.split)

lemma preserves_bind:
  assumes "preserves P m" and "\<And>x. preserves P (f x)"
  shows "preserves P (bind m f)"
  unfolding preserves_def
proof (intro allI impI)
  fix s assume "P s"
  with assms(1) have 1: "P (snd (m s))" by (simp add: preserves_def)
  show "P (snd (bind m f s))"
  proof (cases "m s")
    case (Pair r s')
    with 1 have s': "P s'" by simp
    show ?thesis
    proof (cases r)
      case (Inl e)
      with Pair s' show ?thesis by (simp add: bind_def)
    next
      case (Inr x)
      from assms(2) [of x] s' have "P (snd (f x s'))" by (simp add: preserves_def)
      with Pair Inr show ?thesis by (simp add: bind_def)
    qed
  qed
qed

lemma preserves_try_except:
  assumes "preserves P m" and "\<And>e. preserves P (h e)"
  shows "preserves P (try_except m h)"
  unfolding preserves_def
proof (intro allI impI)
  fix s assume "P s"
  with assms(1) have 1: "P (snd (m s))" by (simp add: preserves_def)
  show "P (snd (try_except m h s))"
  proof (cases "m s")
    case (Pair r s')
    with 1 have s': "P s'" by simp
    show ?thesis
    proof (cases r)
      case (Inl e)
      from assms(2) [of e] s' have "P (snd (h e s'))" by (simp add: preserves_def)
      with Pair Inl show ?thesis by (simp add: try_except_def)
    next
      case (Inr x)
      with Pair s' show ?thesis by (simp add: try_except_def)
    qed
  qed
qed

lemma preserves_emit: "trace_blind P Q \<Longrightarrow> Q ev \<Longrightarrow> preserves P (emit ev)"
  by (simp add: preserves_def trace_blind_def emit_def)

lemma preserves_print: "trace_blind P Q \<Longrightarrow> Q (Print (msg @ e)) \<Longrightarrow> preserves P (print env l msg e)"
  by (simp add: print_def preserves_bind preserves_at preserves_emit)

lemma preserves_sleep: "trace_blind P Q \<Longrightarrow> Q (Sleep n) \<Longrightarrow> preserves P (sleep env l n)"
  by (simp add: sleep_def preserves_bind preserves_at preserves_emit)

lemma preserves_subprocess_run:
  "trace_blind P Q \<Longrightarrow> Q (Run c t) \<Longrightarrow> preserves P (subprocess_run env l c t)"
  by (simp add: subprocess_run_def preserves_bind preserves_at preserves_emit preserves_ret)

lemma preserves_requests_post:
  "trace_blind P Q \<Longrightarrow> Q (Post u m t) \<Longrightarrow> preserves P (requests_post env l u m t)"
  by (simp add: requests_post_def preserves_bind preserves_at preserves_emit preserves_ret)

lemma preserves_datetime_now: "preserves P (datetime_now env l)"
  by (simp add: datetime_now_def preserves_bind preserves_at preserves_ret)

lemma preserves_ping:
  assumes "trace_blind P Q" and "\<And>c t. Q (Run c t)" and "\<And>t. Q (Print t)"
  shows "preserves P (ping env host timeout)"
  unfolding ping_def Let_def
  by (intro preserves_try_except preserves_bind preserves_at preserves_ret
        preserves_subprocess_run [OF assms(1)] assms)
     (simp add: preserves_ret preserves_raise preserves_bind preserves_print [OF assms(1)] assms
        split: exc.split)

lemma preserves_send_discord_notification:
  assumes "trace_blind P Q" and "\<And>e. Q e"
  shows "preserves P (send_discord_notification env u a b d)"
  unfolding send_discord_notification_def Let_def
  by (intro preserves_try_except preserves_bind preserves_at preserves_emit [OF assms(1)]
        preserves_requests_post [OF assms(1)] assms)
     (simp_all add: preserves_ret preserves_raise preserves_bind preserves_print [OF assms(1)] assms)

lemma trace_blind_inv: "trace_blind start_set_iff_down (\<lambda>_. True)"
  by (simp add: trace_blind_def start_set_iff_down_def)

lemma preserves_inv_try_body: "preserves start_set_iff_down (try_body env url)"
  unfolding try_body_def Let_def
  apply (intro preserves_bind preserves_ping [OF trace_blind_inv] preserves_datetime_now
      preserves_sleep [OF trace_blind_inv])
      apply simp_all
    apply (auto intro!: preserves_bind preserves_get preserves_raise preserves_print [OF trace_blind_inv]
       preserves_send_discord_notification [OF trace_blind_inv] split: option.split)
  apply (simp_all add: preserves_def modify_def start_set_iff_down_def)
  done


lemma preserves_inv_tick: "preserves start_set_iff_down (tick env url)"
  unfolding tick_def
  by (intro preserves_try_except preserves_inv_try_body)
     (simp add: preserves_sys_exit preserves_raise preserves_bind
        preserves_print [OF trace_blind_inv] preserves_sleep [OF trace_blind_inv] split: exc.split)

lemma preserves_iterations:
  "(\<And>env. preserves P (tick env url)) \<Longrightarrow> preserves P (iterations url envs)"
  by (induction envs) (simp_all add: preserves_ret preserves_bind)

lemma trace_blind_extends: "trace_blind (extends s) other_event"
  unfolding trace_blind_def extends_def
proof (intro allI impI)
  fix s' ev
  assume "\<exists>evs. s' = s\<lparr>trace := trace s @ evs\<rparr> \<and> list_all other_event evs" and ev: "other_event ev"
  then obtain evs where "s' = s\<lparr>trace := trace s @ evs\<rparr>" "list_all other_event evs" by blast
  then have "s'\<lparr>trace := trace s' @ [ev]\<rparr> = s\<lparr>trace := trace s @ (evs @ [ev])\<rparr> \<and>
     list_all other_event (evs @ [ev])" using ev by simp
  then show "\<exists>evs. s'\<lparr>trace := trace s' @ [ev]\<rparr> = s\<lparr>trace := trace s @ evs\<rparr> \<and> list_all other_event evs"
    by blast
qed

lemma extends_refl: "extends s s"
  unfolding extends_def by (rule exI [of _ "[]"]) simp

lemma ping_extends: "extends s (snd (ping env host timeout s))"
proof -
  have "preserves (extends s) (ping env host timeout)"
    by (rule preserves_ping [OF trace_blind_extends]) (simp_all add: other_event_def)
  then show ?thesis using extends_refl by (simp add: preserves_def)
qed

lemma ping_run:
  assumes "probe_returns env b"
  shows "\<exists>evs. ping env PING_TARGET PING_TIMEOUT s = (Inr b, s\<lparr>trace := trace s @ evs\<rparr>) \<and>
           list_all other_event evs"
proof -
  from ping_extends [of s env PING_TARGET PING_TIMEOUT] obtain evs
    where "snd (ping env PING_TARGET PING_TIMEOUT s) = s\<lparr>trace := trace s @ evs\<rparr>"
      and "list_all other_event evs"
    unfolding extends_def by blast
  moreover from assms have "fst (ping env PING_TARGET PING_TIMEOUT s) = Inr b"
    by (simp add: probe_returns_def)
  ultimately show ?thesis by (metis prod.collapse)
qed

lemma send_run:
  assumes calm: "raises env 93 = None" "raises env 98 = None" "raises env 107 = None"
      "raises env 114 = None" "raises env 117 = None" "raises env 120 = None"
    and post: "\<forall>e. raises env 112 = Some e \<longrightarrow> is_Exception e"
  shows "send_discord_notification env u a b d s =
           (Inr (raises env 112 = None \<and> status_code env = 204),
            s\<lparr>trace := trace s @
                 [Notify u a b d, Post u (message env a b (format_duration d)) 10,
                  Print (outcome_line env)]\<rparr>)"
proof (cases "raises env 112")
  case None
  then show ?thesis using calm
    by (simp add: send_discord_notification_def Let_def bind_def emit_def at_None try_except_def
        requests_post_def ret_def print_None outcome_line_def)
next
  case (Some e)
  with post have "is_Exception e" by simp
  then show ?thesis using calm Some
    by (simp add: send_discord_notification_def Let_def bind_def emit_def at_None at_Some try_except_def
        requests_post_def ret_def print_None outcome_line_def)
qed

lemma quiet_lines:
  assumes "quiet env"
  shows "raises env 93 = None" "raises env 98 = None" "raises env 107 = None"
    "raises env 114 = None" "raises env 117 = None" "raises env 120 = None"
    "raises env 146 = None" "raises env 154 = None" "raises env 155 = None"
    "raises env 162 = None" "raises env 165 = None" "raises env 171 = None"
    "raises env 172 = None" "raises env 176 = None" "raises env 178 = None"
    "raises env 183 = None" "raises env 184 = None"
  using assms by (simp_all add: quiet_def)

lemma quiet_post: "quiet env \<Longrightarrow> \<forall>e. raises env 112 = Some e \<longrightarrow> is_Exception e"
  by (simp add: quiet_def)

lemma tick_up_up:
  assumes "quiet env" "probe_returns env True" "network_is_up s"
  shows "\<exists>evs. tick env url s = (Inr (), s\<lparr>trace := trace s @ evs\<rparr>) \<and> list_all other_event evs"
proof -
  from ping_run [OF assms(2)] obtain evs where
    p: "ping env PING_TARGET PING_TIMEOUT s = (Inr True, s\<lparr>trace := trace s @ evs\<rparr>)"
    and evs: "list_all other_event evs" by blast
  let ?evs = "evs @ [Print (ascii '' ++ '' @ strftime env (ascii ''%H:%M:%S'') (now env) @
               ascii '' - Network OK'' @ cr), Sleep PING_INTERVAL]"
  have "tick env url s = (Inr (), s\<lparr>trace := trace s @ ?evs\<rparr>)"
    using p assms(3) quiet_lines [OF assms(1)]
    by (simp add: tick_def try_except_def try_body_def bind_def datetime_now_def at_None ret_def
        get_def print_None sleep_None)
  moreover have "list_all other_event ?evs" using evs by (simp add: other_event_def)
  ultimately show ?thesis by blast
qed

lemma tick_up_down:
  assumes "quiet env" "probe_returns env False" "network_is_up s"
  shows "\<exists>evs. tick env url s =
           (Inr (), s\<lparr>network_is_up := False, downtime_start := Some (now env),
                       trace := trace s @ evs\<rparr>) \<and> list_all other_event evs"
proof -
  from ping_run [OF assms(2)] obtain evs where
    p: "ping env PING_TARGET PING_TIMEOUT s = (Inr False, s\<lparr>trace := trace s @ evs\<rparr>)"
    and evs: "list_all other_event evs" by blast
  let ?evs = "evs @ [Print (nl @ ascii '' ++ Network down detected at '' @
                 strftime env (ascii ''%H:%M:%S'') (now env) @ nl),
               Print (ascii '' ++ Monitoring downtime...''), Sleep PING_INTERVAL]"
  have "tick env url s = (Inr (), s\<lparr>network_is_up := False, downtime_start := Some (now env),
                       trace := trace s @ ?evs\<rparr>)"
    using p assms(3) quiet_lines [OF assms(1)]
    by (simp add: tick_def try_except_def try_body_def bind_def datetime_now_def at_None ret_def
        get_def modify_def print_None sleep_None)
  moreover have "list_all other_event ?evs" using evs by (simp add: other_event_def)
  ultimately show ?thesis by blast
qed

lemma tick_down_down:
  assumes "quiet env" "probe_returns env False" "\<not> network_is_up s" "downtime_start s = Some t0"
  shows "\<exists>evs. tick env url s = (Inr (), s\<lparr>trace := trace s @ evs\<rparr>) \<and> list_all other_event evs"
proof -
  from ping_run [OF assms(2)] obtain evs where
    p: "ping env PING_TARGET PING_TIMEOUT s = (Inr False, s\<lparr>trace := trace s @ evs\<rparr>)"
    and evs: "list_all other_event evs" by blast
  let ?evs = "evs @ [Print (cr @ ascii '' ++ Network down for: '' @
                 format_duration (now env - t0)), Sleep PING_INTERVAL]"
  have "tick env url s = (Inr (), s\<lparr>trace := trace s @ ?evs\<rparr>)"
    using p assms(3,4) quiet_lines [OF assms(1)]
    by (simp add: tick_def try_except_def try_body_def bind_def datetime_now_def at_None ret_def
        get_def print_None sleep_None)
  moreover have "list_all other_event ?evs" using evs by (simp add: other_event_def)
  ultimately show ?thesis by blast
qed

lemma tick_down_up:
  assumes "quiet env" "probe_returns env True" "\<not> network_is_up s" "downtime_start s = Some t0"
  shows "\<exists>evs evs'. tick env url s =
           (Inr (), s\<lparr>network_is_up := True, downtime_start := None,
                       trace := trace s @ evs @
                         [Notify url t0 (now env) (now env - t0),
                          Post url (message env t0 (now env) (format_duration (now env - t0))) 10]
                         @ evs'\<rparr>) \<and>
           list_all other_event evs \<and> list_all other_event evs'"
proof -
  from ping_run [OF assms(2)] obtain evs where
    p: "ping env PING_TARGET PING_TIMEOUT s = (Inr True, s\<lparr>trace := trace s @ evs\<rparr>)"
    and evs: "list_all other_event evs" by blast
  let ?evs = "evs @ [Print (nl @ ascii '' ++ Network restored at '' @
                 strftime env (ascii ''%H:%M:%S'') (now env) @ nl),
                Print (ascii '' ++ Downtime duration: '' @ format_duration (now env - t0) @ nl)]"
  let ?evs' = "[Print (outcome_line env), Print (replicate 50 45 @ nl), Sleep PING_INTERVAL]"
  note q = quiet_lines [OF assms(1)]
  note send = send_run [OF q(1-6) quiet_post [OF assms(1)]]
  have "tick env url s = (Inr (), s\<lparr>network_is_up := True, downtime_start := None,
                       trace := trace s @ ?evs @
                         [Notify url t0 (now env) (now env - t0),
                          Post url (message env t0 (now env) (format_duration (now env - t0))) 10]
                         @ ?evs'\<rparr>)"
    using p assms(3,4) q
    by (simp add: tick_def try_except_def try_body_def bind_def datetime_now_def at_None ret_def
        get_def modify_def print_None sleep_None send Let_def)
  moreover have "list_all other_event ?evs" "list_all other_event ?evs'"
    using evs by (simp_all add: other_event_def)
  ultimately show ?thesis by blast
qed


lemma notifications_append:
  "notifications (s\<lparr>trace := trace s @ evs\<rparr>) = notifications s @ filter is_Notify evs"
  by (simp add: notifications_def)

lemma posts_append:
  "posts (s\<lparr>trace := trace s @ evs\<rparr>) = posts s @ filter is_Post evs"
  by (simp add: posts_def)

lemma filter_other_event:
  "list_all other_event evs \<Longrightarrow> filter is_Notify evs = [] \<and> filter is_Post evs = []"
  by (induction evs) (simp_all add: other_event_def)

lemma tick_quiet:
  assumes q: "quiet env" and p: "probe_returns env b" and i: "start_set_iff_down s"
  shows "\<exists>s'. tick env url s = (Inr (), s') \<and> start_set_iff_down s' \<and>
           downtime_start s' = next_start b (now env) (downtime_start s) \<and>
           notifications s' = notifications s @
             map (\<lambda>(t0, t). Notify url t0 t (t - t0)) (outages (downtime_start s) [(b, now env)]) \<and>
           length (posts s') = length (posts s) + length (outages (downtime_start s) [(b, now env)])"
proof (cases "network_is_up s")
  case True
  with i have ds: "downtime_start s = None" by (simp add: start_set_iff_down_def)
  show ?thesis
  proof (cases b)
    case True
    with p have pT: "probe_returns env True" by simp
    from tick_up_up [OF q pT \<open>network_is_up s\<close>, of url] obtain evs where
      "tick env url s = (Inr (), s\<lparr>trace := trace s @ evs\<rparr>)" "list_all other_event evs" by blast
    then show ?thesis using ds True i filter_other_event [of evs]
      by (simp add: start_set_iff_down_def notifications_append posts_append)
  next
    case False
    with p have pF: "probe_returns env False" by simp
    from tick_up_down [OF q pF \<open>network_is_up s\<close>, of url] obtain evs where
      "tick env url s = (Inr (), s\<lparr>network_is_up := False, downtime_start := Some (now env),
          trace := trace s @ evs\<rparr>)" "list_all other_event evs" by blast
    then show ?thesis using ds False i filter_other_event [of evs]
      by (simp add: start_set_iff_down_def notifications_def posts_def)
  qed
next
  case False
  with i obtain t0 where ds: "downtime_start s = Some t0" by (auto simp add: start_set_iff_down_def)
  show ?thesis
  proof (cases b)
    case True
    with p have pT: "probe_returns env True" by simp
    from tick_down_up [OF q pT False ds, of url] obtain evs evs' where
      "tick env url s = (Inr (), s\<lparr>network_is_up := True, downtime_start := None,
          trace := trace s @ evs @ [Notify url t0 (now env) (now env - t0),
              Post url (message env t0 (now env) (format_duration (now env - t0))) 10] @ evs'\<rparr>)"
      "list_all other_event evs" "list_all other_event evs'" by blast
    then show ?thesis using ds True i filter_other_event [of evs] filter_other_event [of evs']
      by (simp add: start_set_iff_down_def notifications_def posts_def)
  next
    case b: False
    with p have pF: "probe_returns env False" by simp
    from tick_down_down [OF q pF False ds, of url] obtain evs where
      "tick env url s = (Inr (), s\<lparr>trace := trace s @ evs\<rparr>)" "list_all other_event evs" by blast
    then show ?thesis using ds b i filter_other_event [of evs]
      by (simp add: start_set_iff_down_def notifications_append posts_append)
  qed
qed

lemma iterations_quiet:
  assumes "list_all2 (\<lambda>env b. quiet env \<and> probe_returns env b) envs bs" and "start_set_iff_down s"
  shows "\<exists>s'. iterations url envs s = (Inr (), s') \<and> start_set_iff_down s' \<and>
           notifications s' = notifications s @
             map (\<lambda>(t0, t). Notify url t0 t (t - t0))
               (outages (downtime_start s) (zip bs (map now envs))) \<and>
           length (posts s') = length (posts s) +
               length (outages (downtime_start s) (zip bs (map now envs)))"
  using assms
proof (induction envs bs arbitrary: s rule: list_all2_induct)
  case Nil
  then show ?case by (simp add: ret_def)
next
  case (Cons env envs b bs)
  from Cons.hyps(1) have q: "quiet env" and p: "probe_returns env b" by simp_all
  from tick_quiet [OF q p Cons.prems, of url] obtain s1 where
    t: "tick env url s = (Inr (), s1)" and i1: "start_set_iff_down s1"
    and d1: "downtime_start s1 = next_start b (now env) (downtime_start s)"
    and n1: "notifications s1 = notifications s @
             map (\<lambda>(t0, t). Notify url t0 t (t - t0)) (outages (downtime_start s) [(b, now env)])"
    and p1: "length (posts s1) = length (posts s) + length (outages (downtime_start s) [(b, now env)])"
    by blast
  from Cons.IH [OF i1] obtain s' where
    r: "iterations url envs s1 = (Inr (), s')" and i': "start_set_iff_down s'"
    and n': "notifications s' = notifications s1 @
             map (\<lambda>(t0, t). Notify url t0 t (t - t0))
               (outages (downtime_start s1) (zip bs (map now envs)))"
    and p': "length (posts s') = length (posts s1) +
               length (outages (downtime_start s1) (zip bs (map now envs)))"
    by blast
  have "iterations url (env # envs) s = (Inr (), s')" using t r by (simp add: bind_def)
  moreover have "notifications s' = notifications s @
             map (\<lambda>(t0, t). Notify url t0 t (t - t0))
               (outages (downtime_start s) (zip (b # bs) (map now (env # envs))))"
    using n' n1 d1 by simp
  moreover have "length (posts s') = length (posts s) +
               length (outages (downtime_start s) (zip (b # bs) (map now (env # envs))))"
    using p' p1 d1 by simp
  ultimately show ?case using i' by blast
qed

lemma tick_quiet_continues:
  assumes q: "quiet env" and p: "probe_returns env b"
  shows "fst (tick env url s) = Inr ()"
proof -
  from ping_run [OF p] obtain evs where
    pr: "ping env PING_TARGET PING_TIMEOUT s = (Inr b, s\<lparr>trace := trace s @ evs\<rparr>)" by blast
  note ql = quiet_lines [OF q]
  note send = send_run [OF ql(1-6) quiet_post [OF q]]
  show ?thesis using pr ql
    by (simp add: tick_def try_except_def try_body_def bind_def datetime_now_def at_None ret_def
        get_def modify_def print_None sleep_None send Let_def raise_def TypeError_sub_def
        split: option.split)
qed

lemma while_True_Some:
  assumes "while_True url envs n s = Some y"
  shows "\<not> (\<forall>k. quiet (envs k) \<and> (\<exists>b. probe_returns (envs k) b))"
proof (rule while_True.raw_induct
    [where P = "\<lambda>url envs n s y. \<not> (\<forall>k. quiet (envs k) \<and> (\<exists>b. probe_returns (envs k) b))",
      OF _ assms])
  fix loop :: "pystr \<Rightarrow> (nat \<Rightarrow> env) \<Rightarrow> nat \<Rightarrow> state \<Rightarrow> (exc \<times> state) option"
  fix url envs n s y
  assume IH: "\<And>url envs n s y. loop url envs n s = Some y \<Longrightarrow>
                \<not> (\<forall>k. quiet (envs k) \<and> (\<exists>b. probe_returns (envs k) b))"
    and eq: "(case tick (envs n) url s of (Inl e, s') \<Rightarrow> Some (e, s')
              | (Inr u, s') \<Rightarrow> loop url envs (Suc n) s') = Some y"
  show "\<not> (\<forall>k. quiet (envs k) \<and> (\<exists>b. probe_returns (envs k) b))"
  proof
    assume a: "\<forall>k. quiet (envs k) \<and> (\<exists>b. probe_returns (envs k) b)"
    then obtain b where "quiet (envs n)" "probe_returns (envs n) b" by blast
    then have "fst (tick (envs n) url s) = Inr ()" by (rule tick_quiet_continues)
    then obtain s' where "tick (envs n) url s = (Inr (), s')" by (metis prod.collapse)
    with eq have "loop url envs (Suc n) s' = Some y" by simp
    from IH [OF this] a show False by blast
  qed
qed

lemma while_True_quiet:
  assumes "\<forall>k. quiet (envs k) \<and> (\<exists>b. probe_returns (envs k) b)"
  shows "while_True url envs n s = None"
proof (cases "while_True url envs n s")
  case None
  then show ?thesis .
next
  case (Some y)
  from while_True_Some [OF this] assms show ?thesis by blast
qed



lemma preserves_bind_get:
  assumes "\<And>s. P s \<Longrightarrow> P (snd (k (f s) s))"
  shows "preserves P (bind (get f) k)"
  using assms by (simp add: preserves_def bind_def get_def)

lemma preserves_modify: "(\<And>s. P s \<Longrightarrow> P (f s)) \<Longrightarrow> preserves P (modify f)"
  by (simp add: preserves_def modify_def)

lemma bind_step:
  assumes "m s = (Inr x, s1)" and "P s1" and "preserves P (f x)"
  shows "P (snd (bind m f s))"
  using assms by (simp add: bind_def preserves_def)

lemma try_except_step:
  assumes "P (snd (m s))" and "\<And>e. preserves P (h e)"
  shows "P (snd (try_except m h s))"
proof (cases "m s")
  case (Pair r s')
  with assms(1) have "P s'" by simp
  with assms(2) have "P (snd (h e s'))" for e by (simp add: preserves_def)
  with Pair \<open>P s'\<close> show ?thesis by (cases r) (simp_all add: try_except_def)
qed

lemma preserves_handlers:
  assumes "trace_blind P other_event"
  shows "preserves P (case e of
          KeyboardInterrupt \<Rightarrow> sys_exit 0
        | _ \<Rightarrow>
            if is_Exception e then
              bind (print env 183 (nl @ ascii '' !! Unexpected error: '' @ str_exc e) nl) (\<lambda>_.
              sleep env 184 PING_INTERVAL)
            else raise e)"
  by (cases e)
     (simp_all add: preserves_sys_exit preserves_raise preserves_bind
        preserves_print [OF assms] preserves_sleep [OF assms] other_event_def)

lemma try_body_no_notify:
  assumes "network_is_up s \<or> fst (ping env PING_TARGET PING_TIMEOUT s) \<noteq> Inr True"
  shows "notifications (snd (try_body env url s)) = notifications s"
proof -
  from ping_extends [of s env PING_TARGET PING_TIMEOUT] obtain evs where
    s1: "snd (ping env PING_TARGET PING_TIMEOUT s) = s\<lparr>trace := trace s @ evs\<rparr>"
    and evs: "list_all other_event evs"
    unfolding extends_def by blast
  obtain r where p: "ping env PING_TARGET PING_TIMEOUT s = (r, s\<lparr>trace := trace s @ evs\<rparr>)"
    using s1 by (metis prod.collapse)
  from evs have f: "filter is_Notify evs = []" by (simp add: filter_other_event)
  define P where "P = (\<lambda>s'. notifications s' = notifications s \<and> (network_is_up s' \<or> r \<noteq> Inr True))"
  have tb: "trace_blind P other_event"
    by (simp add: trace_blind_def P_def notifications_def other_event_def)
  have P1: "P (s\<lparr>trace := trace s @ evs\<rparr>)"
    using assms p f by (simp add: P_def notifications_def)
  have "P (snd (try_body env url s))"
  proof (cases r)
    case (Inl e)
    with p P1 show ?thesis by (simp add: try_body_def bind_def)
  next
    case (Inr b)
    note pb = p [unfolded Inr]
    show ?thesis
    proof (cases b)
      case True
      have up: "network_is_up s'" if "P s'" for s' using that Inr True by (simp add: P_def)
      have pr: "P (snd (print env l msg e s'))" if "P s'" for l msg e s'
        using preserves_print [OF tb, of msg e env l] that
        by (simp add: preserves_def other_event_def)
      show ?thesis unfolding try_body_def
        apply (rule bind_step [where P = P and m = "ping env PING_TARGET PING_TIMEOUT" and s = s, OF pb P1])
        apply (simp add: True)
        apply (rule preserves_bind [OF preserves_datetime_now])
        apply (rule preserves_bind)
         apply (rule preserves_bind_get)
         apply (simp add: up pr)
        apply (rule preserves_sleep [OF tb])
        apply (simp add: other_event_def)
        done
    next
      case False
      have md: "P (s'\<lparr>network_is_up := False, downtime_start := Some t\<rparr>)" if "P s'" for s' t
        using that Inr False by (simp add: P_def notifications_def)
      show ?thesis unfolding try_body_def
        apply (rule bind_step [where P = P and m = "ping env PING_TARGET PING_TIMEOUT" and s = s, OF pb P1])
        apply (simp add: False Let_def)
        apply (intro preserves_bind preserves_datetime_now preserves_sleep [OF tb] preserves_get)
         apply (auto intro!: preserves_bind preserves_get preserves_raise preserves_print [OF tb]
            preserves_modify md simp add: other_event_def split: option.split)
        done
    qed
  qed
  then show ?thesis by (simp add: P_def)
qed

lemma tick_no_notify:
  assumes "network_is_up s \<or> fst (ping env PING_TARGET PING_TIMEOUT s) \<noteq> Inr True"
  shows "notifications (snd (tick env url s)) = notifications s"
proof -
  let ?P = "\<lambda>s'. notifications s' = notifications s"
  have tb: "trace_blind ?P other_event"
    by (simp add: trace_blind_def notifications_def other_event_def)
  show ?thesis unfolding tick_def
    by (rule try_except_step [where P = ?P and m = "try_body env url" and s = s,
          OF try_body_no_notify [OF assms]])
       (rule preserves_handlers [OF tb])
qed


section \<open>Concrete worlds and the specification state machine\<close>

lemma quiet_world: "quiet (world rc t st)"
  by (simp add: quiet_def world_def)

lemma probe_world: "probe_returns (world rc t st) (rc = 0)"
  unfolding probe_returns_def
proof
  fix s
  have "raises (world rc t st) 60 = None" by (simp add: world_def)
  moreover have "\<forall>e. raises (world rc t st) 37 = Some e \<or> raises (world rc t st) 50 = Some e
      \<longrightarrow> is_Exception e" by (simp add: world_def)
  ultimately have "fst (ping (world rc t st) PING_TARGET PING_TIMEOUT s) =
      Inr (raises (world rc t st) 37 = None \<and> raises (world rc t st) 50 = None \<and>
           returncode (world rc t st) = 0)" by (rule ping_fst)
  then show "fst (ping (world rc t st) PING_TARGET PING_TIMEOUT s) = Inr (rc = 0)"
    by (simp add: world_def)
qed

lemma world_up: "quiet (world 0 t st) \<and> probe_returns (world 0 t st) True"
  using quiet_world [of 0 t st] probe_world [of 0 t st] by simp

lemma world_down: "quiet (world 1 t st) \<and> probe_returns (world 1 t st) False"
  using quiet_world [of 1 t st] probe_world [of 1 t st] by simp

lemma length_outages:
  "length ts = length bs \<Longrightarrow> length (outages ds (zip bs ts)) = recoveries (ds = None) bs"
proof (induction bs arbitrary: ds ts)
  case Nil
  then show ?case by simp
next
  case (Cons b bs)
  then obtain t ts' where ts: "ts = t # ts'" and len: "length ts' = length bs"
    by (cases ts) simp_all
  from Cons.IH [OF len, of "next_start b t ds"] show ?case
    by (cases b; cases ds) (simp_all add: ts)
qed

lemma recoveries_all_up: "recoveries True (map (\<lambda>_. True) xs) = 0"
  by (induction xs) simp_all

lemma recoveries_all_down: "recoveries up (map (\<lambda>_. False) xs) = 0"
  by (induction xs arbitrary: up) simp_all

lemma list_all2_const:
  "list_all (\<lambda>e. P e b) envs \<Longrightarrow> list_all2 P envs (map (\<lambda>_. b) envs)"
  by (induction envs) simp_all

section \<open>The monitor loop on the documented probe sequence\<close>

text \<open>
  Claim C1. When the loop is fed the probe results true, true, false, false, false, true
  (one per iteration, nothing else going wrong), \<open>send_discord_notification\<close> is called
  exactly once, with \<open>downtime_start\<close> the clock reading of the iteration of the first
  false and \<open>downtime_end\<close> that of the iteration of the final true; the duration is
  their difference, which is three tick intervals when the iterations are evenly spaced.
  One \<open>requests.post\<close> is made.
\<close>

theorem outage_of_three_ticks_reported_once:
  assumes "quiet e0 \<and> probe_returns e0 True" and "quiet e1 \<and> probe_returns e1 True"
    and "quiet e2 \<and> probe_returns e2 False" and "quiet e3 \<and> probe_returns e3 False"
    and "quiet e4 \<and> probe_returns e4 False" and "quiet e5 \<and> probe_returns e5 True"
  shows "\<exists>s'. iterations url [e0, e1, e2, e3, e4, e5] (initial tr) = (Inr (), s') \<and>
           notifications s' =
             filter is_Notify tr @ [Notify url (now e2) (now e5) (now e5 - now e2)] \<and>
           length (posts s') = length (filter is_Post tr) + 1 \<and>
           (\<forall>d. now e3 = now e2 + d \<and> now e4 = now e3 + d \<and> now e5 = now e4 + d \<longrightarrow>
                now e5 - now e2 = 3 * d)"
proof -
  have l: "list_all2 (\<lambda>env b. quiet env \<and> probe_returns env b) [e0, e1, e2, e3, e4, e5]
             [True, True, False, False, False, True]"
    using assms by simp
  have i: "start_set_iff_down (initial tr)"
    by (simp add: start_set_iff_down_def initial_def)
  from iterations_quiet [OF l i, of url] obtain s' where
    "iterations url [e0, e1, e2, e3, e4, e5] (initial tr) = (Inr (), s')"
    "notifications s' = filter is_Notify tr @ [Notify url (now e2) (now e5) (now e5 - now e2)]"
    "length (posts s') = length (filter is_Post tr) + 1"
    by (auto simp add: initial_def notifications_def posts_def)
  then show ?thesis by auto
qed

theorem outage_of_three_ticks_reported_once_witness:
  "\<exists>s'. iterations hook
          [world 0 0 204, world 0 5000000 204, world 1 10000000 204, world 1 15000000 204,
           world 1 20000000 204, world 0 25000000 500] (initial []) = (Inr (), s') \<and>
        notifications s' = [Notify hook 10000000 25000000 15000000] \<and>
        length (posts s') = 1"
  using outage_of_three_ticks_reported_once [OF world_up world_up world_down world_down
      world_down world_up, of hook 0 204 5000000 204 10000000 204 15000000 204 20000000 204
      25000000 500 "[]"]
  by (simp add: world_def)


section \<open>The invariant of the loop\<close>

text \<open>
  Claim C2. \<open>downtime_start\<close> is set if and only if \<open>network_is_up\<close> is false: this
  holds in the initial state (UP, unset), every iteration preserves it, whatever the
  outside world does in that iteration, and so it holds after any number of iterations.
\<close>

theorem downtime_start_set_iff_down:
  "start_set_iff_down (initial tr) \<and>
   (start_set_iff_down s \<longrightarrow> start_set_iff_down (snd (tick env url s))) \<and>
   start_set_iff_down (snd (iterations url envs (initial tr)))"
proof -
  have i: "start_set_iff_down (initial tr)"
    by (simp add: start_set_iff_down_def initial_def)
  have "preserves start_set_iff_down (iterations url envs)"
    by (rule preserves_iterations) (rule preserves_inv_tick)
  with i have "start_set_iff_down (snd (iterations url envs (initial tr)))"
    by (simp add: preserves_def)
  moreover have "start_set_iff_down s \<longrightarrow> start_set_iff_down (snd (tick env url s))"
    using preserves_inv_tick [of env url] by (simp add: preserves_def)
  ultimately show ?thesis using i by simp
qed

theorem downtime_start_set_iff_down_witness:
  "start_set_iff_down (initial []) \<and>
   start_set_iff_down (snd (tick (world 1 7 204) hook (initial []))) \<and>
   start_set_iff_down (snd (iterations hook [world 1 7 204, world 0 9 500] (initial [])))"
  using downtime_start_set_iff_down [of "[]" "initial []" "world 1 7 204" hook
      "[world 1 7 204, world 0 9 500]"]
  by simp

section \<open>When the notifier is called\<close>

text \<open>
  Claim C3. An iteration calls \<open>send_discord_notification\<close> only when the state was DOWN
  and the probe returned true. When every probe of a run returns true, no notifier call
  and no request is made; when every probe returns false, none is made either, and the
  loop never ends on its own (\<open>while_True\<close> has no result).
\<close>

theorem notifier_called_only_on_recovery:
  "(notifications (snd (tick env url s)) \<noteq> notifications s \<longrightarrow>
      \<not> network_is_up s \<and> fst (ping env PING_TARGET PING_TIMEOUT s) = Inr True) \<and>
   (list_all (\<lambda>e. quiet e \<and> probe_returns e True) envs \<longrightarrow>
      (\<exists>s'. iterations url envs (initial tr) = (Inr (), s') \<and>
            notifications s' = filter is_Notify tr \<and>
            length (posts s') = length (filter is_Post tr))) \<and>
   (list_all (\<lambda>e. quiet e \<and> probe_returns e False) envs \<longrightarrow>
      (\<exists>s'. iterations url envs (initial tr) = (Inr (), s') \<and>
            notifications s' = filter is_Notify tr \<and>
            length (posts s') = length (filter is_Post tr))) \<and>
   ((\<forall>n. quiet (world_at n) \<and> probe_returns (world_at n) False) \<longrightarrow>
      while_True url world_at 0 (initial tr) = None)"
proof (intro conjI impI)
  assume "notifications (snd (tick env url s)) \<noteq> notifications s"
  with tick_no_notify [of s env url]
  show "\<not> network_is_up s" and "fst (ping env PING_TARGET PING_TIMEOUT s) = Inr True"
    by blast+
next
  have i: "start_set_iff_down (initial tr)"
    by (simp add: start_set_iff_down_def initial_def)
  {
    fix b
    assume a: "list_all (\<lambda>e. quiet e \<and> probe_returns e b) envs"
      and r: "recoveries True (map (\<lambda>_. b) envs) = 0"
    from a have "list_all2 (\<lambda>env b. quiet env \<and> probe_returns env b) envs (map (\<lambda>_. b) envs)"
      by (rule list_all2_const)
    from iterations_quiet [OF this i, of url] obtain s' where
      s': "iterations url envs (initial tr) = (Inr (), s')"
      and n: "notifications s' = notifications (initial tr) @
             map (\<lambda>(t0, t). Notify url t0 t (t - t0))
               (outages (downtime_start (initial tr)) (zip (map (\<lambda>_. b) envs) (map now envs)))"
      and p: "length (posts s') = length (posts (initial tr)) +
               length (outages (downtime_start (initial tr))
                 (zip (map (\<lambda>_. b) envs) (map now envs)))"
      by blast
    have "length (outages (downtime_start (initial tr))
            (zip (map (\<lambda>_. b) envs) (map now envs))) = 0"
      using length_outages [of "map now envs" "map (\<lambda>_. b) envs" "downtime_start (initial tr)"] r
      by (simp add: initial_def)
    with s' n p have "\<exists>s'. iterations url envs (initial tr) = (Inr (), s') \<and>
            notifications s' = filter is_Notify tr \<and>
            length (posts s') = length (filter is_Post tr)"
      by (simp add: initial_def notifications_def posts_def)
  }
  note run = this
  {
    assume "list_all (\<lambda>e. quiet e \<and> probe_returns e True) envs"
    from run [OF this recoveries_all_up]
    show "\<exists>s'. iterations url envs (initial tr) = (Inr (), s') \<and>
            notifications s' = filter is_Notify tr \<and>
            length (posts s') = length (filter is_Post tr)" .
  }
  {
    assume "list_all (\<lambda>e. quiet e \<and> probe_returns e False) envs"
    from run [OF this recoveries_all_down]
    show "\<exists>s'. iterations url envs (initial tr) = (Inr (), s') \<and>
            notifications s' = filter is_Notify tr \<and>
            length (posts s') = length (filter is_Post tr)" .
  }
  {
    assume "\<forall>n. quiet (world_at n) \<and> probe_returns (world_at n) False"
    then have "\<forall>k. quiet (world_at k) \<and> (\<exists>b. probe_returns (world_at k) b)" by blast
    then show "while_True url world_at 0 (initial tr) = None" by (rule while_True_quiet)
  }
qed

theorem notifier_called_only_on_recovery_witness:
  "(\<exists>s'. iterations hook [world 0 0 204, world 0 5000000 204] (initial []) = (Inr (), s') \<and>
         notifications s' = [] \<and> length (posts s') = 0) \<and>
   (\<exists>s'. iterations hook [world 1 0 204, world 1 5000000 204] (initial []) = (Inr (), s') \<and>
         notifications s' = [] \<and> length (posts s') = 0) \<and>
   while_True hook (\<lambda>n. world 1 (5000000 * int n) 204) 0 (initial []) = None"
proof -
  have up: "list_all (\<lambda>e. quiet e \<and> probe_returns e True) [world 0 0 204, world 0 5000000 204]"
    using world_up by simp
  have down: "list_all (\<lambda>e. quiet e \<and> probe_returns e False) [world 1 0 204, world 1 5000000 204]"
    using world_down by simp
  have forever: "\<forall>n. quiet (world 1 (5000000 * int n) 204) \<and>
                     probe_returns (world 1 (5000000 * int n) 204) False"
    using world_down by simp
  show ?thesis
    using notifier_called_only_on_recovery
            [of "world 0 0 204" hook "initial []" "[world 0 0 204, world 0 5000000 204]" "[]"
                "\<lambda>n. world 1 (5000000 * int n) 204"]
          notifier_called_only_on_recovery
            [of "world 0 0 204" hook "initial []" "[world 1 0 204, world 1 5000000 204]" "[]"
                "\<lambda>n. world 1 (5000000 * int n) 204"]
          up down forever
    by simp
qed

section \<open>The iteration that sees the network come back\<close>

text \<open>
  Claim C8. In an iteration that finds the host reachable while the state is DOWN, the
  notifier is called once and one request is made; whether the request succeeds, is
  answered with another status or raises an \<open>Exception\<close>, the iteration ends in state
  UP with \<open>downtime_start\<close> cleared and the loop goes on. In every continuation the
  further notifier calls and requests are as many as the further DOWN to UP transitions:
  the reported outage is never notified again.
\<close>

theorem recovery_notifies_once_and_goes_on:
  assumes "quiet env" and "probe_returns env True"
    and "\<not> network_is_up s" and "downtime_start s = Some t0"
  shows "\<exists>s1. tick env url s = (Inr (), s1) \<and>
           network_is_up s1 \<and> downtime_start s1 = None \<and>
           notifications s1 = notifications s @ [Notify url t0 (now env) (now env - t0)] \<and>
           posts s1 = posts s @
             [Post url (message env t0 (now env) (format_duration (now env - t0))) 10] \<and>
           (\<forall>envs bs. list_all2 (\<lambda>e b. quiet e \<and> probe_returns e b) envs bs \<longrightarrow>
              (\<exists>s2. iterations url envs s1 = (Inr (), s2) \<and>
                 length (notifications s2) = length (notifications s1) + recoveries True bs \<and>
                 length (posts s2) = length (posts s1) + recoveries True bs))"
proof -
  from tick_down_up [OF assms, of url] obtain evs evs' where
    t: "tick env url s =
          (Inr (), s\<lparr>network_is_up := True, downtime_start := None,
             trace := trace s @ evs @
               [Notify url t0 (now env) (now env - t0),
                Post url (message env t0 (now env) (format_duration (now env - t0))) 10] @ evs'\<rparr>)"
    and o: "list_all other_event evs" "list_all other_event evs'" by blast
  let ?s1 = "s\<lparr>network_is_up := True, downtime_start := None,
             trace := trace s @ evs @
               [Notify url t0 (now env) (now env - t0),
                Post url (message env t0 (now env) (format_duration (now env - t0))) 10] @ evs'\<rparr>"
  have i1: "start_set_iff_down ?s1" by (simp add: start_set_iff_down_def)
  have later: "\<exists>s2. iterations url envs ?s1 = (Inr (), s2) \<and>
                 length (notifications s2) = length (notifications ?s1) + recoveries True bs \<and>
                 length (posts s2) = length (posts ?s1) + recoveries True bs"
    if l: "list_all2 (\<lambda>e b. quiet e \<and> probe_returns e b) envs bs" for envs bs
  proof -
    from l have len: "length (map now envs) = length bs" by (simp add: list_all2_lengthD)
    from iterations_quiet [OF l i1, of url] obtain s2 where
      "iterations url envs ?s1 = (Inr (), s2)"
      "notifications s2 = notifications ?s1 @
             map (\<lambda>(t0, t). Notify url t0 t (t - t0))
               (outages (downtime_start ?s1) (zip bs (map now envs)))"
      "length (posts s2) = length (posts ?s1) +
               length (outages (downtime_start ?s1) (zip bs (map now envs)))"
      by blast
    then show ?thesis using length_outages [OF len, of "downtime_start ?s1"] by simp
  qed
  have "notifications ?s1 = notifications s @ [Notify url t0 (now env) (now env - t0)]"
    using o filter_other_event [of evs] filter_other_event [of evs']
    by (simp add: notifications_def)
  moreover have "posts ?s1 = posts s @
             [Post url (message env t0 (now env) (format_duration (now env - t0))) 10]"
    using o filter_other_event [of evs] filter_other_event [of evs']
    by (simp add: posts_def)
  ultimately show ?thesis using t later by auto
qed

theorem recovery_notifies_once_and_goes_on_witness:
  "\<exists>s1. tick (world 0 25000000 500) hook
           \<lparr>network_is_up = False, downtime_start = Some 10000000, trace = []\<rparr> = (Inr (), s1) \<and>
        network_is_up s1 \<and> downtime_start s1 = None \<and>
        notifications s1 = [Notify hook 10000000 25000000 15000000] \<and>
        length (posts s1) = 1 \<and>
        (\<exists>s2. iterations hook [world 0 30000000 204, world 0 35000000 204] s1 = (Inr (), s2) \<and>
              length (notifications s2) = 1 \<and> length (posts s2) = 1)"
proof -
  have q: "quiet (world 0 25000000 500)" and p: "probe_returns (world 0 25000000 500) True"
    using world_up by simp_all
  have l: "list_all2 (\<lambda>e b. quiet e \<and> probe_returns e b)
             [world 0 30000000 204, world 0 35000000 204] [True, True]"
    using world_up by simp
  from recovery_notifies_once_and_goes_on
         [OF q p, of "\<lparr>network_is_up = False, downtime_start = Some 10000000, trace = []\<rparr>"
            10000000 hook]
  obtain s1 where
    "tick (world 0 25000000 500) hook
       \<lparr>network_is_up = False, downtime_start = Some 10000000, trace = []\<rparr> = (Inr (), s1)"
    "network_is_up s1" "downtime_start s1 = None"
    "notifications s1 = [Notify hook 10000000 25000000 15000000]"
    "length (posts s1) = 1"
    "\<forall>envs bs. list_all2 (\<lambda>e b. quiet e \<and> probe_returns e b) envs bs \<longrightarrow>
              (\<exists>s2. iterations hook envs s1 = (Inr (), s2) \<and>
                 length (notifications s2) = length (notifications s1) + recoveries True bs \<and>
                 length (posts s2) = length (posts s1) + recoveries True bs)"
    by (auto simp add: notifications_def posts_def world_def)
  moreover from this(6) l
  have "\<exists>s2. iterations hook [world 0 30000000 204, world 0 35000000 204] s1 = (Inr (), s2) \<and>
                 length (notifications s2) = length (notifications s1) + recoveries True [True, True] \<and>
                 length (posts s2) = length (posts s1) + recoveries True [True, True]"
    by blast
  ultimately show ?thesis by auto
qed

section \<open>The prober\<close>








section \<open>The notifier\<close>

lemma send_reaches_post:
  assumes "raises env 93 = None" and "raises env 98 = None" and "raises env 107 = None"
  shows "send_discord_notification env url t0 t1 d s =
     (let s1 = s\<lparr>trace := trace s @
                 [Notify url t0 t1 d, Post url (message env t0 t1 (format_duration d)) 10]\<rparr>
      in try_except
           (bind (at env 112) (\<lambda>_.
              if status_code env = 204 then
                bind (print env 114 (ascii '' ++ Discord notification sent successfully'') nl)
                  (\<lambda>_. ret True)
              else
                bind (print env 117 (ascii '' !! Discord notification failed: '' @
                                     str_int (status_code env)) nl) (\<lambda>_. ret False)))
           (\<lambda>e. if is_Exception e then
                   bind (print env 120 (ascii '' !! Error sending Discord notification: '' @
                                        str_exc e) nl) (\<lambda>_. ret False)
                 else raise e) s1)"
  using assms
  by (cases "raises env 112")
     (simp_all add: send_discord_notification_def Let_def bind_def emit_def at_None at_Some
        try_except_def requests_post_def ret_def)

lemma send_True_only_204:
  assumes "raises env 93 = None" and "raises env 98 = None" and "raises env 107 = None"
    and "fst (send_discord_notification env url t0 t1 d s) = Inr True"
  shows "raises env 112 = None \<and> status_code env = 204"
proof -
  note r = assms(4) [unfolded send_reaches_post [OF assms(1-3)] Let_def]
  show ?thesis
  proof (cases "raises env 112")
    case (Some e)
    with r show ?thesis
      by (cases "raises env 120")
         (auto simp add: try_except_def bind_def at_Some print_None print_Some ret_def raise_def
            split: if_splits)
  next
    case None
    show ?thesis
    proof (cases "status_code env = 204")
      case True
      with None show ?thesis by simp
    next
      case False
      with r None show ?thesis
        by (cases "raises env 117"; cases "raises env 120")
           (auto simp add: try_except_def bind_def at_None print_None print_Some ret_def raise_def
              split: if_splits)
    qed
  qed
qed

text \<open>
  Claim C6, as amended. Once the payload is built and \<open>requests.post\<close> is called:
  when it returns status 204 and the success line prints, \<open>send_discord_notification\<close>
  returns true; when it returns any other status and the failure line prints, or raises an
  \<open>Exception\<close> (a timeout included) and the error line prints, the function has printed
  that line and returns false, raising nothing. It returns true only when the request
  returned 204. An exception of the request that is not an \<open>Exception\<close>
  (\<open>KeyboardInterrupt\<close>, \<open>SystemExit\<close>) is not caught and reaches the caller.
\<close>

theorem send_discord_notification_result_by_cases:
  assumes "raises env 93 = None" and "raises env 98 = None" and "raises env 107 = None"
  shows
  "(raises env 112 = None \<and> status_code env = 204 \<and> raises env 114 = None \<longrightarrow>
      send_discord_notification env url t0 t1 d s =
        (Inr True,
         s\<lparr>trace := trace s @
              [Notify url t0 t1 d, Post url (message env t0 t1 (format_duration d)) 10,
               Print (ascii '' ++ Discord notification sent successfully'' @ nl)]\<rparr>)) \<and>
   (raises env 112 = None \<and> status_code env \<noteq> 204 \<and> raises env 117 = None \<longrightarrow>
      send_discord_notification env url t0 t1 d s =
        (Inr False,
         s\<lparr>trace := trace s @
              [Notify url t0 t1 d, Post url (message env t0 t1 (format_duration d)) 10,
               Print (ascii '' !! Discord notification failed: '' @
                      str_int (status_code env) @ nl)]\<rparr>)) \<and>
   (\<forall>e. raises env 112 = Some e \<and> is_Exception e \<and> raises env 120 = None \<longrightarrow>
      send_discord_notification env url t0 t1 d s =
        (Inr False,
         s\<lparr>trace := trace s @
              [Notify url t0 t1 d, Post url (message env t0 t1 (format_duration d)) 10,
               Print (ascii '' !! Error sending Discord notification: '' @
                      str_exc e @ nl)]\<rparr>)) \<and>
   (\<forall>e. raises env 112 = Some e \<and> \<not> is_Exception e \<longrightarrow>
      fst (send_discord_notification env url t0 t1 d s) = Inl e) \<and>
   (fst (send_discord_notification env url t0 t1 d s) = Inr True \<longrightarrow>
      raises env 112 = None \<and> status_code env = 204)"
proof (intro conjI allI impI)
  note u = send_reaches_post [OF assms] Let_def try_except_def bind_def ret_def raise_def
  {
    assume "raises env 112 = None \<and> status_code env = 204 \<and> raises env 114 = None"
    then show "send_discord_notification env url t0 t1 d s =
        (Inr True,
         s\<lparr>trace := trace s @
              [Notify url t0 t1 d, Post url (message env t0 t1 (format_duration d)) 10,
               Print (ascii '' ++ Discord notification sent successfully'' @ nl)]\<rparr>)"
      by (simp add: u at_None print_None)
  }
  {
    assume "raises env 112 = None \<and> status_code env \<noteq> 204 \<and> raises env 117 = None"
    then show "send_discord_notification env url t0 t1 d s =
        (Inr False,
         s\<lparr>trace := trace s @
              [Notify url t0 t1 d, Post url (message env t0 t1 (format_duration d)) 10,
               Print (ascii '' !! Discord notification failed: '' @
                      str_int (status_code env) @ nl)]\<rparr>)"
      by (simp add: u at_None print_None)
  }
  {
    fix e
    assume "raises env 112 = Some e \<and> is_Exception e \<and> raises env 120 = None"
    then show "send_discord_notification env url t0 t1 d s =
        (Inr False,
         s\<lparr>trace := trace s @
              [Notify url t0 t1 d, Post url (message env t0 t1 (format_duration d)) 10,
               Print (ascii '' !! Error sending Discord notification: '' @
                      str_exc e @ nl)]\<rparr>)"
      by (simp add: u at_Some print_None)
  }
  {
    fix e
    assume "raises env 112 = Some e \<and> \<not> is_Exception e"
    then show "fst (send_discord_notification env url t0 t1 d s) = Inl e"
      by (simp add: u at_Some)
  }
  {
    assume "fst (send_discord_notification env url t0 t1 d s) = Inr True"
    from send_True_only_204 [OF assms this]
    show "raises env 112 = None" and "status_code env = 204" by simp_all
  }
qed

theorem send_discord_notification_result_by_cases_witness:
  "fst (send_discord_notification (world 0 0 204) hook 1 2 1 (initial [])) = Inr True \<and>
   (\<exists>m. send_discord_notification (world 0 0 500) hook 1 2 1 (initial []) =
      (Inr False, initial [Notify hook 1 2 1, Post hook m 10,
                           Print (ascii '' !! Discord notification failed: 500'' @ nl)])) \<and>
   (\<exists>m. send_discord_notification post_times_out hook 1 2 1 (initial []) =
      (Inr False, initial [Notify hook 1 2 1, Post hook m 10,
                           Print (ascii '' !! Error sending Discord notification: Read timed out.'' @ nl)])) \<and>
   fst (send_discord_notification sigint_during_post hook 1 2 1 (initial [])) =
      Inl KeyboardInterrupt"
  using send_discord_notification_result_by_cases [of "world 0 0 204" hook 1 2 1 "initial []"]
    send_discord_notification_result_by_cases [of "world 0 0 500" hook 1 2 1 "initial []"]
    send_discord_notification_result_by_cases [of post_times_out hook 1 2 1 "initial []"]
    send_discord_notification_result_by_cases [of sigint_during_post hook 1 2 1 "initial []"]
  by (simp add: world_def post_times_out_def sigint_during_post_def initial_def str_int_def
      str_nat.simps ascii_def)

text \<open>
  Claim C6 as stated does not hold: when the request returns 204 and the success line
  cannot be printed, the function returns false; when the request times out and the error
  line cannot be printed, the function raises; and a \<open>KeyboardInterrupt\<close> during the
  request leaves the function.
\<close>

theorem send_discord_notification_counterexample:
  "fst (send_discord_notification success_print_fails hook 1 2 1 (initial [])) = Inr False \<and>
   status_code success_print_fails = 204 \<and> raises success_print_fails 112 = None \<and>
   fst (send_discord_notification error_print_fails hook 1 2 1 (initial [])) =
     Inl (Exception (ascii ''Broken pipe'')) \<and>
   fst (send_discord_notification sigint_during_post hook 1 2 1 (initial [])) =
     Inl KeyboardInterrupt"
  by (simp add: send_discord_notification_def try_except_def bind_def at_def
      requests_post_def emit_def ret_def raise_def print_def Let_def
      success_print_fails_def error_print_fails_def sigint_during_post_def world_def)

section \<open>Loading the webhook URL\<close>

lemma load_absent:
  assumes "raises env 23 = None" and "raises env 30 = None" and "file_text env = None"
  shows "load_webhook_url env s =
           (Inl (SystemExit 1),
            s\<lparr>trace := trace s @ [Print (ascii ''Error: webhook-secret not found'' @ nl)]\<rparr>)"
  using assms
  by (simp add: load_webhook_url_def try_except_def bind_def open_read_def at_None raise_def
      print_None sys_exit_def WEBHOOK_FILE_def ascii_def)

lemma load_invalid:
  assumes "raises env 23 = None" and "raises env 24 = None" and "raises env 26 = None"
    and "file_text env = Some c" and "strip c \<noteq> []" and "\<not> startswith (strip c) (ascii ''http'')"
  shows "load_webhook_url env s =
           (Inl (SystemExit 1),
            s\<lparr>trace := trace s @
                 [Print (ascii ''Error: Invalid webhook URL in webhook-secret'' @ nl)]\<rparr>)"
  using assms
  by (simp add: load_webhook_url_def try_except_def bind_def open_read_def at_None raise_def
      ret_def print_None sys_exit_def WEBHOOK_FILE_def ascii_def Let_def)

lemma load_accepted:
  assumes "raises env 23 = None" and "raises env 24 = None"
    and "file_text env = Some c" and "strip c = [] \<or> startswith (strip c) (ascii ''http'')"
  shows "load_webhook_url env s = (Inr (strip c), s)"
  using assms
  by (auto simp add: load_webhook_url_def try_except_def bind_def open_read_def at_None
      ret_def Let_def)

lemma monitor_network_startup_exit:
  assumes "load_webhook_url env s = (Inl e, s')"
  shows "monitor_network env envs s = Some (e, s')"
  using assms by (simp add: monitor_network_def startup_def bind_def)

text \<open>
  Claim C7. At start-up (no call failing otherwise): when the credential file is absent,
  the process prints an error and exits with status 1, before the loop is entered; when
  the stripped content of the file is non-empty and does not start with \<open>http\<close>, it
  prints an error and exits with status 1 as well; when the stripped content is empty, it
  is returned as the (empty) webhook URL.
\<close>

theorem load_webhook_url_at_startup:
  assumes "\<forall>l. raises env l = None"
  shows "(file_text env = None \<longrightarrow>
            load_webhook_url env s =
              (Inl (SystemExit 1),
               s\<lparr>trace := trace s @ [Print (ascii ''Error: webhook-secret not found'' @ nl)]\<rparr>) \<and>
            monitor_network env envs s =
              Some (SystemExit 1,
               s\<lparr>trace := trace s @ [Print (ascii ''Error: webhook-secret not found'' @ nl)]\<rparr>)) \<and>
         (\<forall>c. file_text env = Some c \<and> strip c \<noteq> [] \<and> \<not> startswith (strip c) (ascii ''http'') \<longrightarrow>
            load_webhook_url env s =
              (Inl (SystemExit 1),
               s\<lparr>trace := trace s @
                    [Print (ascii ''Error: Invalid webhook URL in webhook-secret'' @ nl)]\<rparr>) \<and>
            monitor_network env envs s =
              Some (SystemExit 1,
               s\<lparr>trace := trace s @
                    [Print (ascii ''Error: Invalid webhook URL in webhook-secret'' @ nl)]\<rparr>)) \<and>
         (\<forall>c. file_text env = Some c \<and> strip c = [] \<longrightarrow>
            load_webhook_url env s = (Inr [], s))"
proof (intro conjI allI impI)
  assume "file_text env = None"
  with assms show a: "load_webhook_url env s =
              (Inl (SystemExit 1),
               s\<lparr>trace := trace s @ [Print (ascii ''Error: webhook-secret not found'' @ nl)]\<rparr>)"
    by (simp add: load_absent)
  then show "monitor_network env envs s =
              Some (SystemExit 1,
               s\<lparr>trace := trace s @ [Print (ascii ''Error: webhook-secret not found'' @ nl)]\<rparr>)"
    by (rule monitor_network_startup_exit)
next
  fix c
  assume "file_text env = Some c \<and> strip c \<noteq> [] \<and> \<not> startswith (strip c) (ascii ''http'')"
  with assms show a: "load_webhook_url env s =
              (Inl (SystemExit 1),
               s\<lparr>trace := trace s @
                    [Print (ascii ''Error: Invalid webhook URL in webhook-secret'' @ nl)]\<rparr>)"
    by (simp add: load_invalid)
  then show "monitor_network env envs s =
              Some (SystemExit 1,
               s\<lparr>trace := trace s @
                    [Print (ascii ''Error: Invalid webhook URL in webhook-secret'' @ nl)]\<rparr>)"
    by (rule monitor_network_startup_exit)
next
  fix c
  assume "file_text env = Some c \<and> strip c = []"
  with assms load_accepted [of env c s] show "load_webhook_url env s = (Inr [], s)"
    by simp
qed

theorem load_webhook_url_at_startup_witness:
  "monitor_network (world 0 0 204) (\<lambda>n. world 0 0 204) (initial []) =
     Some (SystemExit 1, initial [Print (ascii ''Error: webhook-secret not found'' @ nl)]) \<and>
   monitor_network ((world 0 0 204)\<lparr>file_text := Some (ascii ''not-a-url'')\<rparr>) (\<lambda>n. world 0 0 204)
       (initial []) =
     Some (SystemExit 1,
           initial [Print (ascii ''Error: Invalid webhook URL in webhook-secret'' @ nl)]) \<and>
   load_webhook_url ((world 0 0 204)\<lparr>file_text := Some []\<rparr>) (initial []) = (Inr [], initial [])"
  using load_webhook_url_at_startup [of "world 0 0 204" "initial []" "\<lambda>n. world 0 0 204"]
    load_webhook_url_at_startup
      [of "(world 0 0 204)\<lparr>file_text := Some (ascii ''not-a-url'')\<rparr>" "initial []" "\<lambda>n. world 0 0 204"]
    load_webhook_url_at_startup [of "(world 0 0 204)\<lparr>file_text := Some []\<rparr>" "initial []" "\<lambda>n. world 0 0 204"]
  by (simp add: world_def initial_def strip_def startswith_def isspace_def ascii_def)

text \<open>
  Claim C10. The check of the credential file is a prefix test after stripping: whenever
  the stripped content starts with the four characters \<open>http\<close> (it is then non-empty),
  it is returned as the webhook URL with nothing printed, whatever follows the prefix;
  \<open>httpgarbage\<close>, surrounded by white space, is accepted.
\<close>

theorem load_webhook_url_prefix_test_only:
  assumes "\<forall>l. raises env l = None" and "file_text env = Some c"
    and "startswith (strip c) (ascii ''http'')"
  shows "strip c \<noteq> [] \<and> load_webhook_url env s = (Inr (strip c), s)"
proof -
  from assms(3) have "strip c \<noteq> []" by (auto simp add: startswith_def ascii_def)
  moreover from assms have "load_webhook_url env s = (Inr (strip c), s)"
    by (simp add: load_accepted)
  ultimately show ?thesis by simp
qed

theorem load_webhook_url_prefix_test_only_witness:
  "load_webhook_url ((world 0 0 204)\<lparr>file_text := Some (ascii ''  httpgarbage'' @ nl)\<rparr>) (initial []) =
     (Inr (ascii ''httpgarbage''), initial [])"
  using load_webhook_url_prefix_test_only
    [of "(world 0 0 204)\<lparr>file_text := Some (ascii ''  httpgarbage'' @ nl)\<rparr>"
        "ascii ''  httpgarbage'' @ nl" "initial []"]
  by (simp add: world_def strip_def startswith_def isspace_def ascii_def nl_def)

section \<open>Interrupts and unexpected errors\<close>

text \<open>
  A \<open>KeyboardInterrupt\<close> raised anywhere in the body of the \<open>try\<close> ends the process
  with \<open>sys.exit(0)\<close>, and an \<open>Exception\<close> raised there is printed and followed by the
  sleep of line 184, after which the loop goes on.
\<close>

lemma interrupt_in_try_exits_0:
  "try_body env url s = (Inl KeyboardInterrupt, s') \<Longrightarrow>
   tick env url s = (Inl (SystemExit 0), s')"
  by (simp add: tick_def try_except_def sys_exit_def raise_def)

lemma error_in_try_is_logged:
  assumes "try_body env url s = (Inl e, s')" and "is_Exception e"
    and "raises env 183 = None" and "raises env 184 = None"
  shows "tick env url s =
           (Inr (), s'\<lparr>trace := trace s' @
              [Print (nl @ ascii '' !! Unexpected error: '' @ str_exc e @ nl),
               Sleep PING_INTERVAL]\<rparr>)"
  using assms
  by (cases e) (simp_all add: tick_def try_except_def bind_def print_None sleep_None)

text \<open>
  Claim C9. The claim has an interrupt during the sleep end the process with exit code 0.
  The sleep that follows an unexpected error (line 184) is inside the \<open>except Exception\<close>
  handler, where the \<open>except KeyboardInterrupt\<close> clause does not apply: in the iteration
  \<open>sigint_in_error_sleep\<close> the \<open>KeyboardInterrupt\<close> leaves \<open>monitor_network\<close>
  uncaught instead of becoming \<open>SystemExit 0\<close>.
\<close>

theorem sigint_during_error_sleep_is_not_caught:
  "tick sigint_in_error_sleep hook (initial []) =
     (Inl KeyboardInterrupt,
      initial [Run [ascii ''ping'', ascii ''-c'', ascii ''1'', ascii ''-W'', ascii ''3'',
                    ascii ''1.1.1.1''] 4,
               Print (nl @ ascii '' !! Unexpected error: codec cannot encode character'' @ nl),
               Sleep 5]) \<and>
   while_True hook (\<lambda>n. sigint_in_error_sleep) 0 (initial []) =
     Some (KeyboardInterrupt,
      initial [Run [ascii ''ping'', ascii ''-c'', ascii ''1'', ascii ''-W'', ascii ''3'',
                    ascii ''1.1.1.1''] 4,
               Print (nl @ ascii '' !! Unexpected error: codec cannot encode character'' @ nl),
               Sleep 5])"
proof -
  have t: "tick sigint_in_error_sleep hook (initial []) =
     (Inl KeyboardInterrupt,
      initial [Run [ascii ''ping'', ascii ''-c'', ascii ''1'', ascii ''-W'', ascii ''3'',
                    ascii ''1.1.1.1''] 4,
               Print (nl @ ascii '' !! Unexpected error: codec cannot encode character'' @ nl),
               Sleep 5])"
    by (simp add: tick_def try_except_def try_body_def ping_def bind_def at_def
        subprocess_run_def emit_def raise_def ret_def print_def sleep_def
        sigint_in_error_sleep_def world_def initial_def lower_def ascii_def Let_def
        PING_TARGET_def PING_TIMEOUT_def PING_INTERVAL_def str_int_def str_nat_digit)
  then show ?thesis by (simp add: while_True.simps)
qed


end
